theory Spec2Isabelle
  imports Main "HOL-Library.Char_ord" "HOL-Library.List_Lexorder"
begin

section \<open>Strings\<close>

text \<open>
  Python strings are modelled as \<^typ>\<open>string\<close>, the UTF-8 bytes of the text. Every
  separator the program uses (\<open>/\<close> and \<open>.\<close>) is ASCII, so splitting bytes and splitting
  code points agree, and the byte-wise lexicographic order of \<^theory_text>\<open>List_Lexorder\<close> over
  \<^theory_text>\<open>Char_ord\<close> is the code-point order Python compares strings by.
\<close>

text \<open>\<open>s.split(c)\<close> for a one-character separator: never empty, one more segment than
  there are separators.\<close>

fun str_split :: "char \<Rightarrow> string \<Rightarrow> string list" where
  "str_split c [] = ['''']"
| "str_split c (x # xs) =
     (if x = c then [] # str_split c xs
      else (case str_split c xs of
              [] \<Rightarrow> [x # '''']
            | y # ys \<Rightarrow> (x # y) # ys))"

text \<open>The cut at the last occurrence of \<open>c\<close>, shared by \<open>rsplit(c, 1)\<close> and
  \<open>rpartition(c)\<close>: the text before it and the text after it.\<close>

definition split_last :: "char \<Rightarrow> string \<Rightarrow> (string \<times> string) option" where
  "split_last c s =
     (if c \<in> set s
      then Some (rev (tl (dropWhile (\<lambda>x. x \<noteq> c) (rev s))),
                 rev (takeWhile (\<lambda>x. x \<noteq> c) (rev s)))
      else None)"

definition str_rsplit1 :: "char \<Rightarrow> string \<Rightarrow> string list" where
  "str_rsplit1 c s = (case split_last c s of None \<Rightarrow> [s] | Some (h, t) \<Rightarrow> [h, t])"

definition str_rpartition :: "char \<Rightarrow> string \<Rightarrow> string \<times> string \<times> string" where
  "str_rpartition c s =
     (case split_last c s of None \<Rightarrow> ([], [], s) | Some (h, t) \<Rightarrow> (h, [c], t))"

definition startswith :: "string \<Rightarrow> string \<Rightarrow> bool" where
  "startswith s p = (take (length p) s = p)"

definition endswith :: "string \<Rightarrow> string \<Rightarrow> bool" where
  "endswith s p = (length p \<le> length s \<and> drop (length s - length p) s = p)"

section \<open>The flat listing\<close>

text \<open>One element of the \<open>tree\<close> array of the listing response: a dict with the keys
  \<open>path\<close> and \<open>type\<close>, the latter \<open>blob\<close> for a file and \<open>tree\<close> for a directory.\<close>

record item =
  path :: string
  type :: string

section \<open>Analysis functions of \<open>seer.py\<close>\<close>

definition src_layout_finding :: string where
  "src_layout_finding =
     [CHR 0xF0, CHR 0x9F, CHR 0x93, CHR 0xA6] @ '' '' @ [CHR 0x27] @ ''src'' @ [CHR 0x27]
       @ '' layout detected''"

definition monorepo_finding :: string where
  "monorepo_finding =
     '' monorepo structure ('' @ [CHR 0x27] @ ''packages/'' @ [CHR 0x27] @ '' or ''
       @ [CHR 0x27] @ ''apps/'' @ [CHR 0x27] @ '')''"

definition django_finding :: string where
  "django_finding =
     [CHR 0xF0, CHR 0x9F, CHR 0x90, CHR 0x8D] @ '' Django project ('' @ [CHR 0x27]
       @ ''manage.py'' @ [CHR 0x27] @ '' found)''"

definition docker_finding :: string where
  "docker_finding =
     [CHR 0xF0, CHR 0x9F, CHR 0x90, CHR 0xB3] @ '' Dockerized environment ('' @ [CHR 0x27]
       @ ''Dockerfile'' @ [CHR 0x27] @ '' or '' @ [CHR 0x27] @ ''docker-compose.yml''
       @ [CHR 0x27] @ '')''"

definition cicd_finding :: string where
  "cicd_finding =
     [CHR 0xF0, CHR 0x9F, CHR 0x94, CHR 0x84] @ '' CI/CD configured (GitHub Actions)''"

definition analyze_project_structure :: "item list \<Rightarrow> string list" where
  "analyze_project_structure tree =
     (let paths = map path (filter (\<lambda>item. type item = ''blob'') tree) in
        (if \<exists>p \<in> set paths. startswith p ''src/'' then [src_layout_finding] else [])
      @ (if ''packages'' \<in> set (map (\<lambda>p. hd (str_split CHR ''/'' p)) paths)
            \<or> ''apps'' \<in> set (map (\<lambda>p. hd (str_split CHR ''/'' p)) paths)
         then [monorepo_finding] else [])
      @ (if \<exists>p \<in> set paths. endswith p ''manage.py'' then [django_finding] else [])
      @ (if \<exists>p \<in> set paths. endswith p ''docker-compose.yml'' \<or> endswith p ''Dockerfile''
         then [docker_finding] else [])
      @ (if ''.github/workflows'' \<in> set (map path (filter (\<lambda>item. type item = ''tree'') tree))
         then [cicd_finding] else []))"

definition dep_files :: "string list" where
  "dep_files = [''pyproject.toml'', ''requirements.txt'', ''package.json'', ''go.mod'',
                ''pom.xml'', ''build.gradle'', ''Cargo.toml'', ''Gemfile'']"

text \<open>The set comprehension makes the basenames unique; \<open>sorted\<close> then fixes the order
  of the result, whatever order the set is iterated in.\<close>

definition analyze_dependencies :: "item list \<Rightarrow> string list" where
  "analyze_dependencies tree =
     sort (remdups (filter (\<lambda>b. b \<in> set dep_files)
                           (map (\<lambda>item. last (str_split CHR ''/'' (path item))) tree)))"

text \<open>\<open>keyword in s\<close>: the keyword occurs as a contiguous part of \<open>s\<close>.\<close>

fun contains :: "string \<Rightarrow> string \<Rightarrow> bool" where
  "contains [] k = (k = [])"
| "contains (x # xs) k = (startswith (x # xs) k \<or> contains xs k)"

text \<open>\<open>s.lower()\<close> on the ASCII letters; the keywords searched for are ASCII.\<close>

definition lower_char :: "char \<Rightarrow> char" where
  "lower_char c =
     (if CHR ''A'' \<le> c \<and> c \<le> CHR ''Z'' then char_of (of_char c + (32 :: nat)) else c)"

definition smell_keywords :: "string list" where
  "smell_keywords = [''.env'', ''secret'', ''credentials'', ''id_rsa'', ''.pem'']"

definition analyze_code_smells :: "item list \<Rightarrow> string list" where
  "analyze_code_smells tree =
     map path (filter (\<lambda>item. \<exists>keyword \<in> set smell_keywords.
                                 contains (map lower_char (path item)) keyword) tree)"

definition lang_map :: "(string \<times> string) list" where
  "lang_map =
     [(''.py'', ''Python''), (''.js'', ''JavaScript''), (''.ts'', ''TypeScript''),
      (''.tsx'', ''TypeScript''), (''.go'', ''Go''), (''.rs'', ''Rust''), (''.java'', ''Java''),
      (''.rb'', ''Ruby''), (''.c'', ''C''), (''.cpp'', ''C++''), (''.md'', ''Markdown''),
      (''.html'', ''HTML''), (''.css'', ''CSS''), (''.yml'', ''YAML''), (''.json'', ''JSON'')]"

text \<open>A Python dict keeps its keys in insertion order, and the report sorts the
  histogram stably, so \<open>counts\<close> is an association list: assigning to a key that is
  present replaces its value in place, a new key goes to the end.\<close>

fun dict_set :: "'k \<Rightarrow> 'v \<Rightarrow> ('k \<times> 'v) list \<Rightarrow> ('k \<times> 'v) list" where
  "dict_set k v [] = [(k, v)]"
| "dict_set k v ((k', v') # kvs) =
     (if k' = k then (k, v) # kvs else (k', v') # dict_set k v kvs)"

definition dict_get :: "('k \<times> 'v) list \<Rightarrow> 'k \<Rightarrow> 'v \<Rightarrow> 'v" where
  "dict_get d k dflt = (case map_of d k of None \<Rightarrow> dflt | Some v \<Rightarrow> v)"

text \<open>The body of the loop of \<open>analyze_languages\<close> for one item.\<close>

definition count_language :: "(string \<times> nat) list \<Rightarrow> item \<Rightarrow> (string \<times> nat) list" where
  "count_language counts item =
     (if type item = ''blob'' then
        (let parts = str_rsplit1 CHR ''.'' (path item) in
           if length parts > 1 then
             (let ext = ''.'' @ last parts in
                case map_of lang_map ext of
                  Some lang \<Rightarrow> dict_set lang (dict_get counts lang 0 + 1) counts
                | None \<Rightarrow> counts)
           else counts)
      else counts)"

definition analyze_languages :: "item list \<Rightarrow> (string \<times> nat) list" where
  "analyze_languages tree = foldl count_language [] tree"

section \<open>The network boundary\<close>

datatype jvalue = JNum int | JStr string | JNull

text \<open>The decoded JSON object of a response: its scalar fields, and the listing under
  the key \<open>tree\<close> when the object has one.\<close>

record json_object =
  members :: "(string \<times> jvalue) list"
  tree_field :: "item list option"

text \<open>What \<open>requests.get\<close>, \<open>raise_for_status\<close> and \<open>response.json()\<close> come to: a
  \<open>RequestException\<close> other than \<open>HTTPError\<close> (timeout, DNS, connection refused, a body that
  is not JSON), an \<open>HTTPError\<close> for an error status, or the decoded body.\<close>

datatype response = Request_exception | HTTP_error | Success json_object

text \<open>The network answers each URL; a run of either program asks for each URL at most
  once. The requests made are logged in order.\<close>

type_synonym network = "string \<Rightarrow> response"

definition requests_get :: "network \<Rightarrow> string \<Rightarrow> string list \<Rightarrow> response \<times> string list" where
  "requests_get net url log = (net url, log @ [url])"

definition metadata_url :: "string \<Rightarrow> string \<Rightarrow> string" where
  "metadata_url repo_owner repo_name =
     ''https://api.github.com/repos/'' @ repo_owner @ ''/'' @ repo_name"

definition tree_url :: "string \<Rightarrow> string \<Rightarrow> string \<Rightarrow> string" where
  "tree_url repo_owner repo_name branch =
     ''https://api.github.com/repos/'' @ repo_owner @ ''/'' @ repo_name @ ''/git/trees/''
       @ branch @ ''?recursive=1''"

definition get_repo_metadata ::
  "network \<Rightarrow> string \<Rightarrow> string \<Rightarrow> string list \<Rightarrow> json_object option \<times> string list" where
  "get_repo_metadata net repo_owner repo_name log =
     (case requests_get net (metadata_url repo_owner repo_name) log of
        (Success d, log') \<Rightarrow> (Some d, log')
      | (HTTP_error, log') \<Rightarrow> (None, log')
      | (Request_exception, log') \<Rightarrow> (None, log'))"

function get_repo_tree ::
  "network \<Rightarrow> string \<Rightarrow> string \<Rightarrow> string \<Rightarrow> string list \<Rightarrow> item list option \<times> string list" where
  "get_repo_tree net repo_owner repo_name branch log =
     (case requests_get net (tree_url repo_owner repo_name branch) log of
        (Success d, log') \<Rightarrow> (tree_field d, log')
      | (HTTP_error, log') \<Rightarrow>
          (if branch = ''main'' then get_repo_tree net repo_owner repo_name ''master'' log'
           else (None, log'))
      | (Request_exception, log') \<Rightarrow> (None, log'))"
  by pat_completeness auto
termination
  by (relation "measure (\<lambda>(net, repo_owner, repo_name, branch, log).
                   if branch = ''main'' then 1 else 0)") auto

text \<open>The nested \<open>get_tree\<close> of \<open>load_repo_data\<close> in \<open>seer-tui.py\<close>; \<open>owner\<close> and \<open>name\<close>
  are the variables it closes over.\<close>

function get_tree ::
  "network \<Rightarrow> string \<Rightarrow> string \<Rightarrow> string \<Rightarrow> string list \<Rightarrow> item list option \<times> string list" where
  "get_tree net owner name branch log =
     (case requests_get net (tree_url owner name branch) log of
        (Success d, log') \<Rightarrow> (tree_field d, log')
      | (HTTP_error, log') \<Rightarrow>
          (if branch = ''main'' then get_tree net owner name ''master'' log'
           else (None, log'))
      | (Request_exception, log') \<Rightarrow> (None, log'))"
  by pat_completeness auto
termination
  by (relation "measure (\<lambda>(net, owner, name, branch, log).
                   if branch = ''main'' then 1 else 0)") auto

section \<open>The command of \<open>seer.py\<close>\<close>

subsection \<open>Formatting\<close>

text \<open>\<open>sep.join(xs)\<close>, and the decimal text an f-string gives for a number.\<close>

fun join :: "string \<Rightarrow> string list \<Rightarrow> string" where
  "join sep [] = []"
| "join sep [x] = x"
| "join sep (x # y # ys) = x @ sep @ join sep (y # ys)"

function str_nat :: "nat \<Rightarrow> string" where
  "str_nat n =
     (if n < 10 then [char_of (48 + n)]
      else str_nat (n div 10) @ [char_of (48 + n mod 10)])"
  by pat_completeness auto
termination
  by (relation "measure (\<lambda>n. n)") auto

definition str_int :: "int \<Rightarrow> string" where
  "str_int i = (if i < 0 then ''-'' @ str_nat (nat (- i)) else str_nat (nat i))"

text \<open>What \<open>{value}\<close> in an f-string gives for a JSON value: \<open>str\<close> of a number, the
  string itself, \<open>None\<close> for null.\<close>

definition py_str :: "jvalue \<Rightarrow> string" where
  "py_str v = (case v of JNum i \<Rightarrow> str_int i | JStr s \<Rightarrow> s | JNull \<Rightarrow> ''None'')"

subsection \<open>The texts handed to the console\<close>

text \<open>The console reads every string it is given as markup. The f-strings of \<open>main\<close>
  put run-time data between the tags unescaped: the repository argument, values of the
  metadata, paths of the listing.\<close>

definition status_message :: "string \<Rightarrow> string" where
  "status_message repo =
     ''[bold yellow]'' @ [CHR 0xF0, CHR 0x9F, CHR 0x94, CHR 0xAE]
       @ '' Peering into the digital soul of '' @ repo @ ''...[/]''"

definition fatal_message :: "string \<Rightarrow> string" where
  "fatal_message repo =
     [CHR 0xE2, CHR 0x9D, CHR 0x8C]
       @ '' [bold red]Fatal Error:[/bold red] Could not retrieve data for [cyan]'' @ repo
       @ ''[/cyan].''"

definition panel_title :: "string \<Rightarrow> string" where
  "panel_title repo =
     ''Oracle Report for [link=https://github.com/'' @ repo @ '']'' @ repo @ ''[/link]''"

definition panel_stats :: "json_object \<Rightarrow> string" where
  "panel_stats metadata =
     [CHR 0xE2, CHR 0xAD, CHR 0x90] @ '' ''
       @ py_str (dict_get (members metadata) ''stargazers_count'' (JNum 0))
       @ '' '' @ [CHR 0xE2, CHR 0x94, CHR 0x82] @ '' '' @ [CHR 0xF0, CHR 0x9F, CHR 0x8D, CHR 0xB4]
       @ '' '' @ py_str (dict_get (members metadata) ''forks_count'' (JNum 0))
       @ '' '' @ [CHR 0xE2, CHR 0x94, CHR 0x82] @ '' '' @ [CHR 0xF0, CHR 0x9F, CHR 0x90, CHR 0x9E]
       @ '' '' @ py_str (dict_get (members metadata) ''open_issues_count'' (JNum 0))
       @ '' issues''"

definition panel_body :: "json_object \<Rightarrow> string" where
  "panel_body metadata =
     ''[bold cyan]'' @ panel_stats metadata @ ''[/]'' @ [CHR 0x0A] @ ''[i]''
       @ py_str (dict_get (members metadata) ''description'' (JStr ''No description.''))
       @ ''[/i]''"

text \<open>\<open>sorted(languages.items(), key=lambda item: item[1], reverse=True)[:5]\<close>: a stable
  sort, so that languages with the same count keep the order of the dict.\<close>

definition top_languages :: "(string \<times> nat) list \<Rightarrow> (string \<times> nat) list" where
  "top_languages languages = take 5 (sort_key (\<lambda>item. - int (snd item)) languages)"

definition lang_str :: "(string \<times> nat) list \<Rightarrow> string" where
  "lang_str languages =
     join '', '' (map (\<lambda>(lang, count). lang @ '' ('' @ str_nat count @ '' files)'')
                     (top_languages languages))"

definition architecture_str :: "string list \<Rightarrow> string" where
  "architecture_str structures = join [CHR 0x0A] (map (\<lambda>s. ''- '' @ s) structures)"

definition dependencies_str :: "string list \<Rightarrow> string" where
  "dependencies_str dependencies = ''Found: [cyan]'' @ join '', '' dependencies @ ''[/cyan]''"

definition smells_str :: "string list \<Rightarrow> string" where
  "smells_str smells =
     ''[yellow]Potential secrets or config found in: '' @ join '', '' smells @ ''[/yellow]''"

definition no_smells_str :: string where
  "no_smells_str =
     ''[green]'' @ [CHR 0xE2, CHR 0x9C, CHR 0x85] @ '' No obvious secret files found.[/green]''"

text \<open>The rows of the table, label and text, as \<open>add_row\<close> is called.\<close>

definition table_rows :: "item list \<Rightarrow> (string \<times> string) list" where
  "table_rows file_tree =
     (let structures = analyze_project_structure file_tree;
          dependencies = analyze_dependencies file_tree;
          smells = analyze_code_smells file_tree;
          languages = analyze_languages file_tree
      in (if languages \<noteq> []
          then [([CHR 0xF0, CHR 0x9F, CHR 0x97, CHR 0xA3, CHR 0xEF, CHR 0xB8, CHR 0x8F]
                   @ '' Top Languages'', lang_str languages)]
          else [])
       @ (if structures \<noteq> []
          then [([CHR 0xF0, CHR 0x9F, CHR 0x8F, CHR 0x9B, CHR 0xEF, CHR 0xB8, CHR 0x8F]
                   @ '' Architecture'', architecture_str structures)]
          else [])
       @ (if dependencies \<noteq> []
          then [([CHR 0xF0, CHR 0x9F, CHR 0x93, CHR 0xA6] @ '' Dependencies'',
                 dependencies_str dependencies)]
          else [])
       @ (if smells \<noteq> []
          then [([CHR 0xF0, CHR 0x9F, CHR 0x9A, CHR 0xA9] @ '' Red Flags'', smells_str smells)]
          else [([CHR 0xF0, CHR 0x9F, CHR 0x9A, CHR 0xA9] @ '' Red Flags'', no_smells_str)]))"

text \<open>The console's markup parser is a library's, Rich's. It enters the model as the
  parameter \<open>markup_ok\<close>, which says of a string whether the console renders it; when it
  does not, a \<open>MarkupError\<close> is raised, which \<open>main\<close> does not catch. The parameter is
  asked about the strings that hold run-time data. The string literals of the program
  are fixed and balanced markup, which renders.

  The table renders when the texts of its rows do; the row of the empty red flags is a
  literal.\<close>

definition table_renders :: "(string \<Rightarrow> bool) \<Rightarrow> item list \<Rightarrow> bool" where
  "table_renders markup_ok file_tree =
     (let structures = analyze_project_structure file_tree;
          dependencies = analyze_dependencies file_tree;
          smells = analyze_code_smells file_tree;
          languages = analyze_languages file_tree
      in (languages = [] \<or> markup_ok (lang_str languages))
       \<and> (structures = [] \<or> markup_ok (architecture_str structures))
       \<and> (dependencies = [] \<or> markup_ok (dependencies_str dependencies))
       \<and> (smells = [] \<or> markup_ok (smells_str smells)))"

subsection \<open>The run\<close>

text \<open>What the command writes to the console, as events: the error of a malformed
  argument; the three lines of the fatal error; the empty line, the panel with its
  title and body, and the table with its rows, which make the report; and the traceback
  of an uncaught \<open>MarkupError\<close>. The layout is the renderer's. The transient messages of
  the status spinner are left out.\<close>

datatype console_event =
    Invalid_format_error
  | Fatal_error string
  | Blank_line
  | Report_panel string string
  | Report_table "(string \<times> string) list"
  | Uncaught_MarkupError

text \<open>The outcome of a run: the exit code of the process (0 when \<open>main\<close> returns, the
  code of \<open>typer.Exit\<close>, 1 for an uncaught exception), the console output and the
  requests sent.\<close>

record cli_run =
  exit_code :: nat
  console :: "console_event list"
  requests :: "string list"

text \<open>Truthiness, as \<open>not metadata\<close> and \<open>not file_tree\<close> test it: \<open>None\<close>, an empty
  dict and an empty list are all false.\<close>

definition falsy_object :: "json_object option \<Rightarrow> bool" where
  "falsy_object m =
     (case m of None \<Rightarrow> True | Some d \<Rightarrow> members d = [] \<and> tree_field d = None)"

definition falsy_list :: "'a list option \<Rightarrow> bool" where
  "falsy_list t = (case t of None \<Rightarrow> True | Some xs \<Rightarrow> xs = [])"

text \<open>Lines 120 to 146: the empty line, the panel, the table. Each \<open>console.print\<close>
  renders what it is given before writing it.\<close>

definition print_report ::
  "(string \<Rightarrow> bool) \<Rightarrow> string \<Rightarrow> json_object \<Rightarrow> item list \<Rightarrow> nat \<times> console_event list" where
  "print_report markup_ok repo metadata file_tree =
     (if \<not> (markup_ok (panel_title repo) \<and> markup_ok (panel_body metadata))
      then (1, [Blank_line, Uncaught_MarkupError])
      else if \<not> table_renders markup_ok file_tree
      then (1, [Blank_line, Report_panel (panel_title repo) (panel_body metadata),
                Uncaught_MarkupError])
      else (0, [Blank_line, Report_panel (panel_title repo) (panel_body metadata),
                Report_table (table_rows file_tree)]))"

text \<open>The command. \<open>console.status\<close> parses its message when it is called, before the
  fetches. The two fetches run one after the other before their results are tested;
  where both are true, both are present, so the last case of the inner \<open>case\<close> never
  applies.\<close>

definition main :: "(string \<Rightarrow> bool) \<Rightarrow> network \<Rightarrow> string \<Rightarrow> cli_run" where
  "main markup_ok net repo =
     (case str_split CHR ''/'' repo of
        [owner, name] \<Rightarrow>
          if \<not> markup_ok (status_message repo)
          then \<lparr>exit_code = 1, console = [Uncaught_MarkupError], requests = []\<rparr>
          else
            (let (metadata, log1) = get_repo_metadata net owner name [];
                 (file_tree, log2) = get_repo_tree net owner name ''main'' log1
             in if falsy_object metadata \<or> falsy_list file_tree
                then \<lparr>exit_code = 1,
                      console = (if markup_ok (fatal_message repo) then [Fatal_error repo]
                                 else [Uncaught_MarkupError]),
                      requests = log2\<rparr>
                else (case (metadata, file_tree) of
                        (Some m, Some t) \<Rightarrow>
                          (case print_report markup_ok repo m t of
                             (code, out) \<Rightarrow>
                               \<lparr>exit_code = code, console = out, requests = log2\<rparr>)
                      | _ \<Rightarrow>
                          \<lparr>exit_code = 1, console = [Fatal_error repo], requests = log2\<rparr>))
      | _ \<Rightarrow> \<lparr>exit_code = 1, console = [Invalid_format_error], requests = []\<rparr>)"

section \<open>The tree view of \<open>seer-tui.py\<close>\<close>

text \<open>The nodes of the \<open>Tree\<close> widget live in a store, a node being its index there and the
  root index 0: the dict \<open>nodes\<close> of \<open>populate_tree\<close> holds references to nodes of the
  widget, and adding a child through such a reference changes the widget's tree.\<close>

record tree_node =
  label :: string
  data :: "string option"
  allow_expand :: bool
  children :: "nat list"

definition folder_icon :: string where
  "folder_icon = [CHR 0xF0, CHR 0x9F, CHR 0x93, CHR 0x81]"

definition file_icon :: string where
  "file_icon = [CHR 0xF0, CHR 0x9F, CHR 0x93, CHR 0x84]"

definition open_folder_icon :: string where
  "open_folder_icon = [CHR 0xF0, CHR 0x9F, CHR 0x93, CHR 0x82]"

text \<open>\<open>parent.add(label, data, allow_expand)\<close> and, with \<open>allow_expand = False\<close>,
  \<open>parent.add_leaf(label, data)\<close>: the new node goes to the end of the store and of the
  children of \<open>parent\<close>.\<close>

definition add_node ::
  "nat \<Rightarrow> string \<Rightarrow> string \<Rightarrow> bool \<Rightarrow> tree_node list \<Rightarrow> nat \<times> tree_node list" where
  "add_node parent lbl d expandable t =
     (length t,
      t[parent := (t ! parent)\<lparr>children := children (t ! parent) @ [length t]\<rparr>]
        @ [\<lparr>label = lbl, data = Some d, allow_expand = expandable, children = []\<rparr>])"

text \<open>The body of the loop of \<open>populate_tree\<close> for one item, on the dict \<open>nodes\<close> and the
  store of the widget.\<close>

definition add_item ::
  "(string \<rightharpoonup> nat) \<times> tree_node list \<Rightarrow> item \<Rightarrow> (string \<rightharpoonup> nat) \<times> tree_node list" where
  "add_item st item =
     (case st of (nodes, t) \<Rightarrow>
        (case str_rpartition CHR ''/'' (path item) of (parent_path, sep, current_name) \<Rightarrow>
           (let parent_node = (case nodes parent_path of None \<Rightarrow> 0 | Some n \<Rightarrow> n);
                icon = (if type item = ''blob'' then file_icon else folder_icon);
                lbl = icon @ '' '' @ current_name
            in if type item = ''blob''
               then (nodes, snd (add_node parent_node lbl (path item) False t))
               else (case add_node parent_node lbl (path item) True t of
                       (new_node, t') \<Rightarrow> (nodes(path item \<mapsto> new_node), t')))))"

record app =
  repo_full_name :: string
  file_tree_data :: "item list option"
  status_line :: string
  status_line_display :: bool
  dir_tree :: "tree_node list"
  dir_tree_display :: bool
  dir_tree_focus :: bool
  root_expanded :: bool

text \<open>\<open>tree.clear()\<close> followed by \<open>tree.root.set_label\<close>: a store with the root alone.\<close>

definition cleared_tree :: "string \<Rightarrow> tree_node list" where
  "cleared_tree repo =
     [\<lparr>label = open_folder_icon @ '' '' @ repo, data = None, allow_expand = True,
       children = []\<rparr>]"

text \<open>Lines 47 to 67 of \<open>populate_tree\<close>: the tree is cleared, \<open>nodes\<close> starts as
  \<open>{"": tree.root}\<close>, and the items are added in the order of a stable sort by path.\<close>

definition build_tree :: "string \<Rightarrow> item list \<Rightarrow> (string \<rightharpoonup> nat) \<times> tree_node list" where
  "build_tree repo items =
     (let sorted_tree = sort_key path items
      in foldl add_item (['''' \<mapsto> 0], cleared_tree repo) sorted_tree)"

definition populate_tree :: "app \<Rightarrow> app" where
  "populate_tree self =
     (if falsy_list (file_tree_data self)
      then self\<lparr>status_line := ''[red]No file data to display.[/red]''\<rparr>
      else (case file_tree_data self of
              None \<Rightarrow> self
            | Some items \<Rightarrow>
                (let (nodes, t) = build_tree (repo_full_name self) items
                 in self\<lparr>dir_tree := t, root_expanded := True,
                         status_line_display := False, dir_tree_display := True,
                         dir_tree_focus := True\<rparr>)))"

text \<open>The worker \<open>load_repo_data\<close>, with the requests it sends.\<close>

definition load_repo_data :: "network \<Rightarrow> app \<Rightarrow> app \<times> string list" where
  "load_repo_data net self =
     (case str_split CHR ''/'' (repo_full_name self) of
        [owner, name] \<Rightarrow>
          (let (tree_data, log) = get_tree net owner name ''main'' []
           in if \<not> falsy_list tree_data
              then (populate_tree (self\<lparr>file_tree_data := tree_data\<rparr>), log)
              else (self\<lparr>status_line :=
                            ''[red]Could not load repository: '' @ repo_full_name self
                              @ ''[/red]''\<rparr>, log))
      | _ \<Rightarrow> (self\<lparr>status_line := ''[red]Invalid repo format.[/red]''\<rparr>, []))"

section \<open>Notions the properties are stated with\<close>

text \<open>An item is counted for a language when it is a blob whose path has a dot and the
  text from the last dot on is an extension of \<open>lang_map\<close> for that language.\<close>

definition counted :: "string \<Rightarrow> item \<Rightarrow> bool" where
  "counted lang item \<longleftrightarrow>
     type item = ''blob'' \<and>
     (case split_last CHR ''.'' (path item) of
        None \<Rightarrow> False
      | Some (h, t) \<Rightarrow> map_of lang_map (''.'' @ t) = Some lang)"

text \<open>A histogram is well formed when no key occurs twice and no count is zero.\<close>

definition positive :: "(string \<times> nat) list \<Rightarrow> bool" where
  "positive d \<longleftrightarrow> distinct (map fst d) \<and> list_all (\<lambda>kv. 0 < snd kv) d"

text \<open>Node \<open>j\<close> is a child of node \<open>i\<close> in the store \<open>t\<close>; the nodes reachable from the
  root through the children lists; the text before the last \<open>/\<close> of a path.\<close>

definition is_child :: "tree_node list \<Rightarrow> nat \<Rightarrow> nat \<Rightarrow> bool" where
  "is_child t i j \<longleftrightarrow> i < length t \<and> j \<in> set (children (t ! i))"

inductive reachable :: "tree_node list \<Rightarrow> nat \<Rightarrow> bool" for t :: "tree_node list" where
  root: "reachable t 0"
| child: "reachable t i \<Longrightarrow> is_child t i j \<Longrightarrow> reachable t j"

code_pred reachable .

definition parent_path :: "string \<Rightarrow> string" where
  "parent_path p = fst (str_rpartition CHR ''/'' p)"




text \<open>The loop of \<open>populate_tree\<close> run over any sequence of items; the parent a step
  chooses (\<open>nodes.get(parent_path, tree.root)\<close>); the node a step creates; and the parent
  chosen for the \<open>k\<close>-th item of a sequence.\<close>

definition run :: "string \<Rightarrow> item list \<Rightarrow> (string \<rightharpoonup> nat) \<times> tree_node list" where
  "run repo xs = foldl add_item (['''' \<mapsto> 0], cleared_tree repo) xs"

definition chosen_parent :: "(string \<rightharpoonup> nat) \<Rightarrow> item \<Rightarrow> nat" where
  "chosen_parent nodes item =
     (case nodes (parent_path (path item)) of None \<Rightarrow> 0 | Some n \<Rightarrow> n)"

definition new_node :: "item \<Rightarrow> tree_node" where
  "new_node item =
     \<lparr>label = (if type item = ''blob'' then file_icon else folder_icon) @ '' ''
                @ snd (snd (str_rpartition CHR ''/'' (path item))),
      data = Some (path item), allow_expand = (type item \<noteq> ''blob''), children = []\<rparr>"

definition parent_at :: "string \<Rightarrow> item list \<Rightarrow> nat \<Rightarrow> nat" where
  "parent_at repo xs k = chosen_parent (fst (run repo (take k xs))) (xs ! k)"

text \<open>The app as \<open>__init__\<close>, \<open>compose\<close> and \<open>on_mount\<close> leave it: the status line shown,
  the tree hidden and holding its root only.\<close>

definition SeerApp :: "string \<Rightarrow> app" where
  "SeerApp repo =
     \<lparr>repo_full_name = repo, file_tree_data = None,
      status_line = [CHR 0xF0, CHR 0x9F, CHR 0x94, CHR 0xAE] @ '' Fetching data for '' @ repo
                      @ ''...'',
      status_line_display = True,
      dir_tree = cleared_tree repo, dir_tree_display = False, dir_tree_focus = False,
      root_expanded = False\<rparr>"

section \<open>Facts about the string operations\<close>

lemma str_split_not_Nil: "str_split c s \<noteq> []"
  by (induction s) (auto split: list.splits)

lemma length_str_split: "length (str_split c s) = Suc (count_list s c)"
  by (induction s) (auto split: list.splits simp: str_split_not_Nil)

lemma str_split_two_iff:
  "(\<exists>owner name. str_split c s = [owner, name]) \<longleftrightarrow> count_list s c = 1"
proof -
  have "(\<exists>owner name. str_split c s = [owner, name]) \<longleftrightarrow> length (str_split c s) = 2"
    by (auto simp: length_Suc_conv numeral_2_eq_2)
  then show ?thesis by (simp add: length_str_split)
qed

lemma count_list_0_iff: "count_list xs c = 0 \<longleftrightarrow> c \<notin> set xs"
  by (induction xs) auto

lemma str_split_single: "str_split c s = [y] \<Longrightarrow> c \<notin> set s"
  using length_str_split[of c s] by (simp add: count_list_0_iff)

lemma str_split_many: "str_split c s = y # z # zs \<Longrightarrow> c \<in> set s"
  using length_str_split[of c s] count_list_0_iff[of s c] by auto

lemma split_last_Some:
  "split_last c s = Some (h, t) \<longleftrightarrow> s = h @ c # t \<and> c \<notin> set t"
proof
  assume "split_last c s = Some (h, t)"
  then have c: "c \<in> set s" and h: "h = rev (tl (dropWhile (\<lambda>x. x \<noteq> c) (rev s)))"
    and t: "t = rev (takeWhile (\<lambda>x. x \<noteq> c) (rev s))"
    by (auto simp: split_last_def split: if_splits)
  from c have "dropWhile (\<lambda>x. x \<noteq> c) (rev s) \<noteq> []" by simp
  moreover from this have "hd (dropWhile (\<lambda>x. x \<noteq> c) (rev s)) = c"
    using hd_dropWhile[of "\<lambda>x. x \<noteq> c" "rev s"] by simp
  ultimately have "dropWhile (\<lambda>x. x \<noteq> c) (rev s) = c # rev h"
    using h by (cases "dropWhile (\<lambda>x. x \<noteq> c) (rev s)") auto
  then have "rev s = rev t @ c # rev h"
    using takeWhile_dropWhile_id[of "\<lambda>x. x \<noteq> c" "rev s"] t by simp
  then have "rev (rev s) = rev (rev t @ c # rev h)" by simp
  then have "s = h @ c # t" by simp
  moreover have "c \<notin> set t" using t by (auto dest: set_takeWhileD)
  ultimately show "s = h @ c # t \<and> c \<notin> set t" by simp
next
  assume a: "s = h @ c # t \<and> c \<notin> set t"
  then have "rev s = rev t @ c # rev h" by simp
  moreover have "\<forall>x\<in>set (rev t). x \<noteq> c" using a by auto
  ultimately have "takeWhile (\<lambda>x. x \<noteq> c) (rev s) = rev t"
    and "dropWhile (\<lambda>x. x \<noteq> c) (rev s) = c # rev h"
    by (auto simp add: takeWhile_append dropWhile_append)
  then show "split_last c s = Some (h, t)" using a by (simp add: split_last_def)
qed


text \<open>The last segment of \<open>s.split(c)\<close> is the text after the last \<open>c\<close>.\<close>

lemma last_str_split: "last (str_split c s) = rev (takeWhile (\<lambda>x. x \<noteq> c) (rev s))"
proof (induction s)
  case Nil
  show ?case by simp
next
  case (Cons x xs)
  show ?case
  proof (cases "x = c")
    case True
    then show ?thesis using Cons by (simp add: str_split_not_Nil takeWhile_append)
  next
    case False
    obtain y ys where yys: "str_split c xs = y # ys"
      using str_split_not_Nil[of c xs] by (cases "str_split c xs") auto
    show ?thesis
    proof (cases ys)
      case Nil
      with yys have notin: "c \<notin> set xs" by (auto dest: str_split_single)
      then have tw: "takeWhile (\<lambda>x. x \<noteq> c) (rev xs) = rev xs"
        by (auto simp: takeWhile_eq_all_conv)
      with Cons.IH yys Nil have "y = xs" by simp
      then show ?thesis using False yys Nil tw notin
        by (auto simp add: takeWhile_append)
    next
      case (Cons z zs)
      with yys have "c \<in> set xs" by (auto dest: str_split_many)
      then show ?thesis using False yys Cons Cons.IH
        by (auto simp add: takeWhile_append)
    qed
  qed
qed

lemma last_str_split_suffix: "\<exists>pre. s = pre @ last (str_split c s)"
proof -
  have "rev s = takeWhile (\<lambda>x. x \<noteq> c) (rev s) @ dropWhile (\<lambda>x. x \<noteq> c) (rev s)"
    by simp
  then have "rev (rev s) =
      rev (takeWhile (\<lambda>x. x \<noteq> c) (rev s) @ dropWhile (\<lambda>x. x \<noteq> c) (rev s))"
    by simp
  then have "s = rev (dropWhile (\<lambda>x. x \<noteq> c) (rev s)) @ rev (takeWhile (\<lambda>x. x \<noteq> c) (rev s))"
    by (simp only: rev_rev_ident rev_append)
  then show ?thesis unfolding last_str_split by blast
qed

lemma endswith_iff: "endswith s p \<longleftrightarrow> (\<exists>pre. s = pre @ p)"
proof
  assume "endswith s p"
  then have "s = take (length s - length p) s @ p"
    unfolding endswith_def by (metis append_take_drop_id)
  then show "\<exists>pre. s = pre @ p" ..
next
  assume "\<exists>pre. s = pre @ p"
  then show "endswith s p" by (auto simp: endswith_def)
qed

lemma basename_endswith: "last (str_split c s) = b \<Longrightarrow> endswith s b"
  using last_str_split_suffix[of s c] by (auto simp: endswith_iff)

section \<open>Fetching the listing\<close>

lemma get_repo_tree_unfold:
  "get_repo_tree net repo_owner repo_name branch log =
     (case net (tree_url repo_owner repo_name branch) of
        Success d \<Rightarrow> (tree_field d, log @ [tree_url repo_owner repo_name branch])
      | Request_exception \<Rightarrow> (None, log @ [tree_url repo_owner repo_name branch])
      | HTTP_error \<Rightarrow>
          if branch = ''main''
          then (case net (tree_url repo_owner repo_name ''master'') of
                  Success d \<Rightarrow>
                    (tree_field d, log @ [tree_url repo_owner repo_name ''main'',
                                          tree_url repo_owner repo_name ''master''])
                | _ \<Rightarrow> (None, log @ [tree_url repo_owner repo_name ''main'',
                                      tree_url repo_owner repo_name ''master'']))
          else (None, log @ [tree_url repo_owner repo_name branch]))"
  by (simp add: requests_get_def split: response.splits)

lemma get_tree_unfold:
  "get_tree net owner name branch log =
     (case net (tree_url owner name branch) of
        Success d \<Rightarrow> (tree_field d, log @ [tree_url owner name branch])
      | Request_exception \<Rightarrow> (None, log @ [tree_url owner name branch])
      | HTTP_error \<Rightarrow>
          if branch = ''main''
          then (case net (tree_url owner name ''master'') of
                  Success d \<Rightarrow>
                    (tree_field d, log @ [tree_url owner name ''main'',
                                          tree_url owner name ''master''])
                | _ \<Rightarrow> (None, log @ [tree_url owner name ''main'',
                                      tree_url owner name ''master'']))
          else (None, log @ [tree_url owner name branch]))"
  by (simp add: requests_get_def split: response.splits)

declare get_repo_tree.simps [simp del] get_tree.simps [simp del]

text \<open>
  Claim C3. Both fetchers (\<open>get_repo_tree\<close> of the report and \<open>get_tree\<close> of the tree view)
  send the request for the branch asked for first. A transport failure ends the fetch with
  \<open>None\<close> after that one request. An HTTP error status ends it with \<open>None\<close> after that
  one request when the branch is not \<open>main\<close>; when it is \<open>main\<close>, exactly one more request
  is sent, for \<open>master\<close>, and its outcome is final: the listing field of a successful
  response, \<open>None\<close> for either kind of failure.
\<close>

theorem fetch_listing_fallback:
  "get_repo_tree net owner name branch log =
     (case net (tree_url owner name branch) of
        Success d \<Rightarrow> (tree_field d, log @ [tree_url owner name branch])
      | Request_exception \<Rightarrow> (None, log @ [tree_url owner name branch])
      | HTTP_error \<Rightarrow>
          if branch = ''main''
          then (case net (tree_url owner name ''master'') of
                  Success d \<Rightarrow>
                    (tree_field d, log @ [tree_url owner name ''main'',
                                          tree_url owner name ''master''])
                | _ \<Rightarrow> (None, log @ [tree_url owner name ''main'',
                                      tree_url owner name ''master'']))
          else (None, log @ [tree_url owner name branch]))
   \<and> get_tree net owner name branch log = get_repo_tree net owner name branch log"
proof
  show "get_repo_tree net owner name branch log =
     (case net (tree_url owner name branch) of
        Success d \<Rightarrow> (tree_field d, log @ [tree_url owner name branch])
      | Request_exception \<Rightarrow> (None, log @ [tree_url owner name branch])
      | HTTP_error \<Rightarrow>
          if branch = ''main''
          then (case net (tree_url owner name ''master'') of
                  Success d \<Rightarrow>
                    (tree_field d, log @ [tree_url owner name ''main'',
                                          tree_url owner name ''master''])
                | _ \<Rightarrow> (None, log @ [tree_url owner name ''main'',
                                      tree_url owner name ''master'']))
          else (None, log @ [tree_url owner name branch]))"
    by (rule get_repo_tree_unfold)
  show "get_tree net owner name branch log = get_repo_tree net owner name branch log"
    unfolding get_repo_tree_unfold get_tree_unfold ..
qed

theorem fetch_listing_fallback_witness:
  "get_repo_tree ((\<lambda>u. Success \<lparr>members = [], tree_field = Some [\<lparr>path = ''a'', type = ''blob''\<rparr>]\<rparr>)
                    (tree_url ''o'' ''r'' ''main'' := HTTP_error)) ''o'' ''r'' ''main'' []
     = (Some [\<lparr>path = ''a'', type = ''blob''\<rparr>],
        [tree_url ''o'' ''r'' ''main'', tree_url ''o'' ''r'' ''master''])
   \<and> get_tree ((\<lambda>u. Success \<lparr>members = [], tree_field = Some [\<lparr>path = ''a'', type = ''blob''\<rparr>]\<rparr>)
                    (tree_url ''o'' ''r'' ''main'' := HTTP_error)) ''o'' ''r'' ''develop'' []
     = get_repo_tree ((\<lambda>u. Success \<lparr>members = [], tree_field = Some [\<lparr>path = ''a'', type = ''blob''\<rparr>]\<rparr>)
                    (tree_url ''o'' ''r'' ''main'' := HTTP_error)) ''o'' ''r'' ''develop'' []"
  using fetch_listing_fallback[of
      "(\<lambda>u. Success \<lparr>members = [], tree_field = Some [\<lparr>path = ''a'', type = ''blob''\<rparr>]\<rparr>)
         (tree_url ''o'' ''r'' ''main'' := HTTP_error)" "''o''" "''r''" "''main''" "[]"]
    fetch_listing_fallback[of
      "(\<lambda>u. Success \<lparr>members = [], tree_field = Some [\<lparr>path = ''a'', type = ''blob''\<rparr>]\<rparr>)
         (tree_url ''o'' ''r'' ''main'' := HTTP_error)" "''o''" "''r''" "''develop''" "[]"]
  by (simp add: tree_url_def)

text \<open>
  Claim C10. When the response for branch \<open>main\<close> is successful and its body has no
  \<open>tree\<close> field, both fetchers return \<open>None\<close> having sent that one request only: the
  request for \<open>master\<close> is not sent.
\<close>

theorem listing_without_tree_field:
  assumes "net (tree_url owner name ''main'') = Success d"
    and "tree_field d = None"
  shows "get_repo_tree net owner name ''main'' log = (None, log @ [tree_url owner name ''main''])
       \<and> get_tree net owner name ''main'' log = (None, log @ [tree_url owner name ''main''])"
  using assms by (simp add: get_repo_tree_unfold get_tree_unfold)

theorem listing_without_tree_field_witness:
  "get_repo_tree (\<lambda>u. Success \<lparr>members = [(''message'', JStr ''x'')], tree_field = None\<rparr>)
      ''o'' ''r'' ''main'' [] = (None, [tree_url ''o'' ''r'' ''main''])
   \<and> get_tree (\<lambda>u. Success \<lparr>members = [(''message'', JStr ''x'')], tree_field = None\<rparr>)
      ''o'' ''r'' ''main'' [] = (None, [tree_url ''o'' ''r'' ''main''])"
  using listing_without_tree_field[of
      "\<lambda>u. Success \<lparr>members = [(''message'', JStr ''x'')], tree_field = None\<rparr>"
      "''o''" "''r''" "\<lparr>members = [(''message'', JStr ''x'')], tree_field = None\<rparr>" "[]"]
  by simp

section \<open>The command: exit codes\<close>

declare str_nat.simps [simp del]

lemma main_malformed:
  assumes "count_list repo CHR ''/'' \<noteq> 1"
  shows "main markup_ok net repo =
           \<lparr>exit_code = 1, console = [Invalid_format_error], requests = []\<rparr>"
proof -
  from assms have "\<not> (\<exists>owner name. str_split CHR ''/'' repo = [owner, name])"
    by (simp add: str_split_two_iff)
  then show ?thesis
    by (auto simp: main_def split: list.splits)
qed

lemma main_status_fails:
  assumes "str_split CHR ''/'' repo = [owner, name]"
    and "\<not> markup_ok (status_message repo)"
  shows "main markup_ok net repo =
           \<lparr>exit_code = 1, console = [Uncaught_MarkupError], requests = []\<rparr>"
  using assms by (simp add: main_def)

lemma main_wellformed:
  assumes "str_split CHR ''/'' repo = [owner, name]"
    and "markup_ok (status_message repo)"
    and "get_repo_metadata net owner name [] = (metadata, log1)"
    and "get_repo_tree net owner name ''main'' log1 = (file_tree, log2)"
  shows "main markup_ok net repo =
           (case (metadata, file_tree) of
              (Some m, Some t) \<Rightarrow>
                 if (members m = [] \<and> tree_field m = None) \<or> t = []
                 then \<lparr>exit_code = 1,
                       console = (if markup_ok (fatal_message repo) then [Fatal_error repo]
                                  else [Uncaught_MarkupError]),
                       requests = log2\<rparr>
                 else \<lparr>exit_code = fst (print_report markup_ok repo m t),
                       console = snd (print_report markup_ok repo m t), requests = log2\<rparr>
            | _ \<Rightarrow> \<lparr>exit_code = 1,
                      console = (if markup_ok (fatal_message repo) then [Fatal_error repo]
                                 else [Uncaught_MarkupError]),
                      requests = log2\<rparr>)"
  using assms
  by (simp add: main_def falsy_object_def falsy_list_def split: option.splits prod.splits)

lemma print_report_code:
  "fst (print_report markup_ok repo m t) =
     (if markup_ok (panel_title repo) \<and> markup_ok (panel_body m) \<and> table_renders markup_ok t
      then 0 else 1)"
  by (simp add: print_report_def)

lemma print_report_renders:
  assumes "markup_ok (panel_title repo)" and "markup_ok (panel_body m)"
    and "table_renders markup_ok t"
  shows "print_report markup_ok repo m t =
           (0, [Blank_line, Report_panel (panel_title repo) (panel_body m),
                Report_table (table_rows t)])"
  using assms by (simp add: print_report_def)

text \<open>
  Claim C9. A repository argument that does not contain exactly one \<open>/\<close> makes the command
  print the invalid-format error and exit with code 1, and no request has been sent.
\<close>

theorem main_malformed_repo:
  assumes "count_list repo CHR ''/'' \<noteq> 1"
  shows "exit_code (main markup_ok net repo) = 1
       \<and> console (main markup_ok net repo) = [Invalid_format_error]
       \<and> requests (main markup_ok net repo) = []"
  using main_malformed[OF assms] by simp

theorem main_malformed_repo_witness:
  "exit_code (main (\<lambda>s. True) (\<lambda>u. HTTP_error) ''notarepo'') = 1
   \<and> console (main (\<lambda>s. True) (\<lambda>u. HTTP_error) ''notarepo'') = [Invalid_format_error]
   \<and> requests (main (\<lambda>s. True) (\<lambda>u. HTTP_error) ''notarepo'') = []"
  using main_malformed_repo[of "''notarepo''" "\<lambda>s. True" "\<lambda>u. HTTP_error"] by simp

text \<open>
  Claim C8, as stated, fails: when both fetches succeed and the listing is the empty
  sequence, \<open>not file_tree\<close> holds and the command exits with code 1 without the report,
  whatever the console renders.
\<close>

theorem main_empty_listing_counterexample:
  "fst (get_repo_metadata
          ((\<lambda>u. Success \<lparr>members = [(''sha'', JStr ''4b825dc'')], tree_field = Some []\<rparr>)
             (metadata_url ''o'' ''r'' :=
                Success \<lparr>members = [(''stargazers_count'', JNum 1)], tree_field = None\<rparr>))
          ''o'' ''r'' [])
     = Some \<lparr>members = [(''stargazers_count'', JNum 1)], tree_field = None\<rparr>
   \<and> fst (get_repo_tree
          ((\<lambda>u. Success \<lparr>members = [(''sha'', JStr ''4b825dc'')], tree_field = Some []\<rparr>)
             (metadata_url ''o'' ''r'' :=
                Success \<lparr>members = [(''stargazers_count'', JNum 1)], tree_field = None\<rparr>))
          ''o'' ''r'' ''main'' [metadata_url ''o'' ''r''])
     = Some []
   \<and> main (\<lambda>s. True)
          ((\<lambda>u. Success \<lparr>members = [(''sha'', JStr ''4b825dc'')], tree_field = Some []\<rparr>)
             (metadata_url ''o'' ''r'' :=
                Success \<lparr>members = [(''stargazers_count'', JNum 1)], tree_field = None\<rparr>))
          ''o/r''
     = \<lparr>exit_code = 1, console = [Fatal_error ''o/r''],
        requests = [metadata_url ''o'' ''r'', tree_url ''o'' ''r'' ''main'']\<rparr>"
  by (simp add: main_def get_repo_metadata_def get_repo_tree_unfold requests_get_def
        falsy_object_def falsy_list_def metadata_url_def tree_url_def)

text \<open>
  Claim C8, amended. In every run where the argument splits at its one \<open>/\<close> into owner
  and name, the metadata fetch returns a non-empty object, the listing fetch returns a
  non-empty listing, and the console renders the texts of the run (the status message,
  the title and body of the panel, the texts of the table), the command prints the
  report, that is the empty line, the panel and the table, and exits with code 0, the
  requests being those of the two fetches. An exit code 0 occurs only where the argument
  is well formed and both fetches returned non-empty data; the exit code is 1 otherwise:
  for a malformed argument, for a fetch that returns \<open>None\<close>, for an empty metadata
  object and for an empty listing.
\<close>

theorem main_exit_code:
  "(\<forall>owner name m log1 t log2.
      str_split CHR ''/'' repo = [owner, name] \<and>
      get_repo_metadata net owner name [] = (Some m, log1) \<and>
      \<not> falsy_object (Some m) \<and>
      get_repo_tree net owner name ''main'' log1 = (Some t, log2) \<and>
      t \<noteq> [] \<and>
      markup_ok (status_message repo) \<and> markup_ok (panel_title repo) \<and>
      markup_ok (panel_body m) \<and> table_renders markup_ok t
      \<longrightarrow> main markup_ok net repo =
            \<lparr>exit_code = 0,
             console = [Blank_line, Report_panel (panel_title repo) (panel_body m),
                        Report_table (table_rows t)],
             requests = log2\<rparr>)
   \<and> (exit_code (main markup_ok net repo) = 0 \<longrightarrow>
        (\<exists>owner name m log1 t log2.
           str_split CHR ''/'' repo = [owner, name] \<and>
           get_repo_metadata net owner name [] = (Some m, log1) \<and>
           \<not> falsy_object (Some m) \<and>
           get_repo_tree net owner name ''main'' log1 = (Some t, log2) \<and>
           t \<noteq> []))
   \<and> (exit_code (main markup_ok net repo) = 0 \<or> exit_code (main markup_ok net repo) = 1)"
proof (intro conjI allI impI)
  fix owner name m log1 t log2
  assume a: "str_split CHR ''/'' repo = [owner, name] \<and>
      get_repo_metadata net owner name [] = (Some m, log1) \<and>
      \<not> falsy_object (Some m) \<and>
      get_repo_tree net owner name ''main'' log1 = (Some t, log2) \<and>
      t \<noteq> [] \<and>
      markup_ok (status_message repo) \<and> markup_ok (panel_title repo) \<and>
      markup_ok (panel_body m) \<and> table_renders markup_ok t"
  then have sp: "str_split CHR ''/'' repo = [owner, name]"
    and md: "get_repo_metadata net owner name [] = (Some m, log1)"
    and nf: "\<not> falsy_object (Some m)"
    and ft: "get_repo_tree net owner name ''main'' log1 = (Some t, log2)"
    and ne: "t \<noteq> []"
    and st: "markup_ok (status_message repo)"
    and r: "markup_ok (panel_title repo)" "markup_ok (panel_body m)"
           "table_renders markup_ok t"
    by simp_all
  from nf have nm: "\<not> (members m = [] \<and> tree_field m = None)"
    by (simp add: falsy_object_def)
  show "main markup_ok net repo =
            \<lparr>exit_code = 0,
             console = [Blank_line, Report_panel (panel_title repo) (panel_body m),
                        Report_table (table_rows t)],
             requests = log2\<rparr>"
    using main_wellformed[where markup_ok = markup_ok, OF sp st md ft] nm ne print_report_renders[where markup_ok = markup_ok, OF r]
    by simp
next
  assume z: "exit_code (main markup_ok net repo) = 0"
  show "\<exists>owner name m log1 t log2.
           str_split CHR ''/'' repo = [owner, name] \<and>
           get_repo_metadata net owner name [] = (Some m, log1) \<and>
           \<not> falsy_object (Some m) \<and>
           get_repo_tree net owner name ''main'' log1 = (Some t, log2) \<and>
           t \<noteq> []"
  proof (cases "count_list repo CHR ''/'' = 1")
    case False
    from main_malformed[OF False, of markup_ok net] z show ?thesis by simp
  next
    case True
    then obtain owner name where sp: "str_split CHR ''/'' repo = [owner, name]"
      using str_split_two_iff[of "CHR ''/''" repo] by auto
    show ?thesis
    proof (cases "markup_ok (status_message repo)")
      case False
      from main_status_fails[where markup_ok = markup_ok and net = net, OF sp False] z show ?thesis by simp
    next
      case st: True
      obtain metadata log1 where md: "get_repo_metadata net owner name [] = (metadata, log1)"
        by (cases "get_repo_metadata net owner name []") auto
      obtain file_tree log2 where
        ft: "get_repo_tree net owner name ''main'' log1 = (file_tree, log2)"
        by (cases "get_repo_tree net owner name ''main'' log1") auto
      note m = main_wellformed[where markup_ok = markup_ok, OF sp st md ft]
      show ?thesis
      proof (cases metadata)
        case None
        with m z show ?thesis by simp
      next
        case (Some d)
        show ?thesis
        proof (cases file_tree)
          case None
          with m Some z show ?thesis by simp
        next
          case ft_some: (Some t)
          from m Some ft_some z have "\<not> ((members d = [] \<and> tree_field d = None) \<or> t = [])"
            by (auto split: if_splits)
          then have "\<not> falsy_object (Some d)" and "t \<noteq> []"
            by (simp_all add: falsy_object_def)
          with sp md ft Some ft_some show ?thesis by blast
        qed
      qed
    qed
  qed
next
  show "exit_code (main markup_ok net repo) = 0 \<or> exit_code (main markup_ok net repo) = 1"
  proof (cases "count_list repo CHR ''/'' = 1")
    case False
    from main_malformed[OF False, of markup_ok net] show ?thesis by simp
  next
    case True
    then obtain owner name where sp: "str_split CHR ''/'' repo = [owner, name]"
      using str_split_two_iff[of "CHR ''/''" repo] by auto
    show ?thesis
    proof (cases "markup_ok (status_message repo)")
      case False
      from main_status_fails[where markup_ok = markup_ok and net = net, OF sp False] show ?thesis by simp
    next
      case st: True
      obtain metadata log1 where md: "get_repo_metadata net owner name [] = (metadata, log1)"
        by (cases "get_repo_metadata net owner name []") auto
      obtain file_tree log2 where
        ft: "get_repo_tree net owner name ''main'' log1 = (file_tree, log2)"
        by (cases "get_repo_tree net owner name ''main'' log1") auto
      from main_wellformed[where markup_ok = markup_ok, OF sp st md ft] show ?thesis
        by (auto simp: print_report_code split: option.splits if_splits)
    qed
  qed
qed

theorem main_exit_code_witness:
  "main (\<lambda>s. True)
        ((\<lambda>u. Success \<lparr>members = [(''sha'', JStr ''4b825dc'')],
                         tree_field = Some [\<lparr>path = ''a.py'', type = ''blob''\<rparr>]\<rparr>)
           (metadata_url ''o'' ''r'' :=
              Success \<lparr>members = [(''stargazers_count'', JNum 1)], tree_field = None\<rparr>))
        ''o/r''
     = \<lparr>exit_code = 0,
        console = [Blank_line,
                   Report_panel (panel_title ''o/r'')
                     (panel_body \<lparr>members = [(''stargazers_count'', JNum 1)],
                                  tree_field = None\<rparr>),
                   Report_table (table_rows [\<lparr>path = ''a.py'', type = ''blob''\<rparr>])],
        requests = [metadata_url ''o'' ''r'', tree_url ''o'' ''r'' ''main'']\<rparr>"
proof -
  let ?m = "\<lparr>members = [(''stargazers_count'', JNum 1)], tree_field = None\<rparr>"
  let ?t = "[\<lparr>path = ''a.py'', type = ''blob''\<rparr>]"
  let ?net = "(\<lambda>u. Success \<lparr>members = [(''sha'', JStr ''4b825dc'')], tree_field = Some ?t\<rparr>)
                (metadata_url ''o'' ''r'' := Success ?m)"
  let ?ok = "\<lambda>s::string. True"
  have sp: "str_split CHR ''/'' ''o/r'' = [''o'', ''r'']" by simp
  have md: "get_repo_metadata ?net ''o'' ''r'' [] = (Some ?m, [metadata_url ''o'' ''r''])"
    by (simp add: get_repo_metadata_def requests_get_def)
  have ft: "get_repo_tree ?net ''o'' ''r'' ''main'' [metadata_url ''o'' ''r'']
              = (Some ?t, [metadata_url ''o'' ''r'', tree_url ''o'' ''r'' ''main''])"
    by (simp add: get_repo_tree_unfold metadata_url_def tree_url_def)
  have nf: "\<not> falsy_object (Some ?m)" by (simp add: falsy_object_def)
  have tr: "table_renders ?ok ?t" by (simp add: table_renders_def)
  from main_exit_code[of "''o/r''" ?net ?ok] sp md nf ft tr show ?thesis
    by blast
qed

section \<open>The analysis functions\<close>

subsection \<open>Dependency manifests\<close>

text \<open>
  Claim C6, as stated, fails: \<open>analyze_dependencies\<close> does not look at the type of an
  item. A directory named like a manifest is reported, although the listing has no file.
\<close>

theorem analyze_dependencies_directory_counterexample:
  "filter (\<lambda>item. type item = ''blob'') [\<lparr>path = ''vendor/Gemfile'', type = ''tree''\<rparr>] = []
   \<and> analyze_dependencies [\<lparr>path = ''vendor/Gemfile'', type = ''tree''\<rparr>] = [''Gemfile'']"
  by (simp add: analyze_dependencies_def dep_files_def)

text \<open>
  Claim C6, amended. For every listing, the dependency detector inspects the final path
  segment of every item, file or directory: its result holds exactly the manifest names
  of \<open>dep_files\<close> that are the final segment of some item's path, each once, in
  ascending (code-point lexicographic) order.
\<close>

theorem analyze_dependencies_basenames:
  "set (analyze_dependencies tree) =
     {b \<in> set dep_files. \<exists>item \<in> set tree. last (str_split CHR ''/'' (path item)) = b}
   \<and> distinct (analyze_dependencies tree)
   \<and> sorted (analyze_dependencies tree)"
  by (auto simp: analyze_dependencies_def)

theorem analyze_dependencies_basenames_witness:
  "set (analyze_dependencies
          [\<lparr>path = ''b/go.mod'', type = ''blob''\<rparr>, \<lparr>path = ''Gemfile'', type = ''tree''\<rparr>,
           \<lparr>path = ''a/go.mod'', type = ''blob''\<rparr>, \<lparr>path = ''x/go.mod.bak'', type = ''blob''\<rparr>])
     = {''Gemfile'', ''go.mod''}
   \<and> analyze_dependencies
          [\<lparr>path = ''b/go.mod'', type = ''blob''\<rparr>, \<lparr>path = ''Gemfile'', type = ''tree''\<rparr>,
           \<lparr>path = ''a/go.mod'', type = ''blob''\<rparr>, \<lparr>path = ''x/go.mod.bak'', type = ''blob''\<rparr>]
     = [''Gemfile'', ''go.mod'']"
  using analyze_dependencies_basenames[of
          "[\<lparr>path = ''b/go.mod'', type = ''blob''\<rparr>, \<lparr>path = ''Gemfile'', type = ''tree''\<rparr>,
            \<lparr>path = ''a/go.mod'', type = ''blob''\<rparr>, \<lparr>path = ''x/go.mod.bak'', type = ''blob''\<rparr>]"]
  by (simp add: analyze_dependencies_def dep_files_def)

subsection \<open>Containerization\<close>

lemma findings_distinct:
  "src_layout_finding \<noteq> docker_finding" "monorepo_finding \<noteq> docker_finding"
  "django_finding \<noteq> docker_finding" "cicd_finding \<noteq> docker_finding"
  by (simp_all add: src_layout_finding_def monorepo_finding_def django_finding_def
        cicd_finding_def docker_finding_def)

lemma docker_iff:
  "docker_finding \<in> set (analyze_project_structure tree) \<longleftrightarrow>
     (\<exists>item \<in> set tree. type item = ''blob'' \<and>
        (endswith (path item) ''docker-compose.yml'' \<or> endswith (path item) ''Dockerfile''))"
  unfolding analyze_project_structure_def Let_def
  using findings_distinct by auto

lemma docker_once:
  "count_list (analyze_project_structure tree) docker_finding \<le> 1"
  unfolding analyze_project_structure_def Let_def
  using findings_distinct by simp

text \<open>
  Claim C7, as stated, fails: the rule tests how the path ends, not what the file is
  named. A file named \<open>app.Dockerfile\<close> yields the finding although no file is named
  \<open>Dockerfile\<close> or \<open>docker-compose.yml\<close>.
\<close>

theorem docker_suffix_counterexample:
  "last (str_split CHR ''/'' ''app.Dockerfile'') = ''app.Dockerfile''
   \<and> analyze_project_structure [\<lparr>path = ''app.Dockerfile'', type = ''blob''\<rparr>]
       = [docker_finding]"
  by (simp add: analyze_project_structure_def startswith_def endswith_def)

text \<open>
  Claim C7, amended. The structure detector emits the containerization finding exactly
  when the path of some file ends with \<open>Dockerfile\<close> or with \<open>docker-compose.yml\<close>; a file
  named exactly so, at any depth, is such a file; and the finding is emitted at most once.
\<close>

theorem docker_finding_rule:
  "(docker_finding \<in> set (analyze_project_structure tree) \<longleftrightarrow>
      (\<exists>item \<in> set tree. type item = ''blob'' \<and>
         (endswith (path item) ''docker-compose.yml'' \<or> endswith (path item) ''Dockerfile'')))
   \<and> (\<forall>item \<in> set tree.
         type item = ''blob'' \<and>
         (last (str_split CHR ''/'' (path item)) = ''Dockerfile'' \<or>
          last (str_split CHR ''/'' (path item)) = ''docker-compose.yml'')
         \<longrightarrow> docker_finding \<in> set (analyze_project_structure tree))
   \<and> count_list (analyze_project_structure tree) docker_finding \<le> 1"
proof (intro conjI ballI impI)
  show "docker_finding \<in> set (analyze_project_structure tree) \<longleftrightarrow>
      (\<exists>item \<in> set tree. type item = ''blob'' \<and>
         (endswith (path item) ''docker-compose.yml'' \<or> endswith (path item) ''Dockerfile''))"
    by (rule docker_iff)
next
  fix item
  assume i: "item \<in> set tree"
    and n: "type item = ''blob'' \<and>
         (last (str_split CHR ''/'' (path item)) = ''Dockerfile'' \<or>
          last (str_split CHR ''/'' (path item)) = ''docker-compose.yml'')"
  then have "endswith (path item) ''docker-compose.yml'' \<or> endswith (path item) ''Dockerfile''"
    using basename_endswith[of "CHR ''/''" "path item"] by blast
  with i n show "docker_finding \<in> set (analyze_project_structure tree)"
    unfolding docker_iff by blast
next
  show "count_list (analyze_project_structure tree) docker_finding \<le> 1"
    by (rule docker_once)
qed

theorem docker_finding_rule_witness:
  "docker_finding \<in> set (analyze_project_structure
      [\<lparr>path = ''svc/Dockerfile'', type = ''blob''\<rparr>,
       \<lparr>path = ''docker-compose.yml'', type = ''blob''\<rparr>])
   \<and> count_list (analyze_project_structure
      [\<lparr>path = ''svc/Dockerfile'', type = ''blob''\<rparr>,
       \<lparr>path = ''docker-compose.yml'', type = ''blob''\<rparr>]) docker_finding \<le> 1"
proof -
  let ?t = "[\<lparr>path = ''svc/Dockerfile'', type = ''blob''\<rparr>,
             \<lparr>path = ''docker-compose.yml'', type = ''blob''\<rparr>]"
  have "type (\<lparr>path = ''svc/Dockerfile'', type = ''blob''\<rparr>) = ''blob'' \<and>
        (last (str_split CHR ''/'' (path \<lparr>path = ''svc/Dockerfile'', type = ''blob''\<rparr>)) = ''Dockerfile''
         \<or> last (str_split CHR ''/'' (path \<lparr>path = ''svc/Dockerfile'', type = ''blob''\<rparr>))
             = ''docker-compose.yml'')"
    by simp
  moreover have "\<lparr>path = ''svc/Dockerfile'', type = ''blob''\<rparr> \<in> set ?t" by simp
  ultimately show ?thesis using docker_finding_rule[of ?t] by blast
qed

subsection \<open>The language histogram\<close>

lemma map_of_dict_set: "map_of (dict_set k v d) = (map_of d)(k \<mapsto> v)"
  by (induction d) (auto simp: fun_eq_iff)

lemma dict_get_dict_set:
  "dict_get (dict_set k v d) k' dflt = (if k' = k then v else dict_get d k' dflt)"
  by (simp add: dict_get_def map_of_dict_set)

lemma fst_dict_set: "fst ` set (dict_set k v d) = insert k (fst ` set d)"
proof -
  have "fst ` set (dict_set k v d) = dom (map_of (dict_set k v d))"
    by (simp add: dom_map_of_conv_image_fst)
  also have "\<dots> = insert k (dom (map_of d))"
    by (simp add: map_of_dict_set)
  finally show ?thesis by (simp add: dom_map_of_conv_image_fst)
qed

lemma distinct_dict_set: "distinct (map fst d) \<Longrightarrow> distinct (map fst (dict_set k v d))"
  by (induction d) (auto simp: fst_dict_set)

lemma list_all_dict_set: "list_all P d \<Longrightarrow> P (k, v) \<Longrightarrow> list_all P (dict_set k v d)"
  by (induction d) auto

lemma counted_iff:
  "counted lang item \<longleftrightarrow> type item = ''blob'' \<and>
     (\<exists>h t. split_last CHR ''.'' (path item) = Some (h, t) \<and>
            map_of lang_map (''.'' @ t) = Some lang)"
  unfolding counted_def by (auto split: option.splits)

lemma count_language_counted:
  assumes "counted lang item"
  shows "count_language counts item = dict_set lang (dict_get counts lang 0 + 1) counts"
proof -
  from assms obtain h t where b: "type item = ''blob''"
    and sl: "split_last CHR ''.'' (path item) = Some (h, t)"
    and lm: "map_of lang_map (''.'' @ t) = Some lang"
    unfolding counted_iff by blast
  show ?thesis
    unfolding count_language_def str_rsplit1_def Let_def sl using b lm
    by (simp del: map_of.simps)
qed

lemma counted_unique:
  assumes "counted lang item" and "counted lang' item"
  shows "lang = lang'"
proof -
  from assms(1) obtain h t where
    1: "split_last CHR ''.'' (path item) = Some (h, t)" "map_of lang_map (''.'' @ t) = Some lang"
    unfolding counted_iff by blast
  from assms(2) obtain h' t' where
    2: "split_last CHR ''.'' (path item) = Some (h', t')"
       "map_of lang_map (''.'' @ t') = Some lang'"
    unfolding counted_iff by blast
  from 1(1) 2(1) have "t = t'" by simp
  with 1(2) 2(2) show ?thesis by simp
qed

lemma count_language_not_counted:
  assumes "\<forall>lang. \<not> counted lang item"
  shows "count_language counts item = counts"
proof (cases "split_last CHR ''.'' (path item)")
  case None
  then show ?thesis by (simp add: count_language_def str_rsplit1_def)
next
  case (Some ht)
  obtain h t where ht: "ht = (h, t)" by (cases ht)
  with Some assms have "type item = ''blob'' \<Longrightarrow> map_of lang_map (''.'' @ t) = None"
    unfolding counted_iff
    by (cases "map_of lang_map (''.'' @ t)") (auto simp del: map_of.simps)
  with Some ht show ?thesis
    by (simp add: count_language_def str_rsplit1_def del: map_of.simps)
qed

lemma dict_get_count_language:
  "dict_get (count_language counts item) lang 0 =
     dict_get counts lang 0 + (if counted lang item then 1 else 0)"
proof (cases "\<exists>l. counted l item")
  case True
  then obtain l where l: "counted l item" by blast
  have eq: "counted lang item \<longleftrightarrow> lang = l"
    using l counted_unique[OF l, of lang] by blast
  show ?thesis
    unfolding count_language_counted[OF l] dict_get_dict_set eq by simp
next
  case False
  then show ?thesis by (simp add: count_language_not_counted)
qed

lemma dict_get_foldl_count_language:
  "dict_get (foldl count_language counts tree) lang 0 =
     dict_get counts lang 0 + length (filter (counted lang) tree)"
  by (induction tree arbitrary: counts) (simp_all add: dict_get_count_language)

lemma positive_count_language:
  assumes "positive counts"
  shows "positive (count_language counts item)"
proof (cases "\<exists>l. counted l item")
  case True
  then obtain l where l: "counted l item" by blast
  with assms show ?thesis
    by (simp add: count_language_counted positive_def distinct_dict_set list_all_dict_set)
next
  case False
  with assms show ?thesis by (simp add: count_language_not_counted)
qed

lemma positive_foldl: "positive counts \<Longrightarrow> positive (foldl count_language counts tree)"
  by (induction tree arbitrary: counts) (simp_all add: positive_count_language)

lemma analyze_languages_count:
  "map_of (analyze_languages tree) lang =
     (if \<exists>item \<in> set tree. counted lang item
      then Some (length (filter (counted lang) tree)) else None)"
proof -
  have p: "positive (analyze_languages tree)"
    unfolding analyze_languages_def by (rule positive_foldl) (simp add: positive_def)
  have "dict_get [] lang (0::nat) = 0" by (simp add: dict_get_def)
  then have g: "dict_get (analyze_languages tree) lang 0 = length (filter (counted lang) tree)"
    unfolding analyze_languages_def by (simp add: dict_get_foldl_count_language)
  have e: "(\<exists>item \<in> set tree. counted lang item) \<longleftrightarrow> 0 < length (filter (counted lang) tree)"
    by (auto simp: filter_empty_conv)
  show ?thesis
  proof (cases "map_of (analyze_languages tree) lang")
    case None
    with g e show ?thesis by (auto simp: dict_get_def)
  next
    case (Some v)
    then have "(lang, v) \<in> set (analyze_languages tree)" by (rule map_of_SomeD)
    with p have "0 < v" by (auto simp: positive_def list_all_iff)
    with Some g e show ?thesis by (auto simp: dict_get_def)
  qed
qed

text \<open>
  Claim C4, as stated, fails: a name whose only dot is at position 0 is not skipped. The
  path is cut at its last dot wherever that is, so a file named \<open>.py\<close> is counted as Python.
\<close>

theorem analyze_languages_dotfile_counterexample:
  "analyze_languages [\<lparr>path = ''.py'', type = ''blob''\<rparr>] = [(''Python'', 1)]"
  by (simp add: analyze_languages_def count_language_def str_rsplit1_def split_last_def
        lang_map_def dict_get_def)

text \<open>
  Claim C4, amended. For every listing and every language, the histogram maps the language
  to the number of files whose path has a dot and whose text from the last dot on is an
  extension of that language in the table, the dot being at any position, also the first;
  a language with no such file has no entry. Files without a dot, files with an extension
  that is not in the table, and directories add nothing. Each language has at most one
  entry.
\<close>

theorem analyze_languages_histogram:
  "map_of (analyze_languages tree) lang =
     (if \<exists>item \<in> set tree. counted lang item
      then Some (length (filter (counted lang) tree)) else None)
   \<and> distinct (map fst (analyze_languages tree))
   \<and> (counted lang item \<longleftrightarrow>
        type item = ''blob'' \<and>
        (\<exists>h t. path item = h @ ''.'' @ t \<and> CHR ''.'' \<notin> set t \<and>
               map_of lang_map (''.'' @ t) = Some lang))"
proof (intro conjI)
  show "map_of (analyze_languages tree) lang =
     (if \<exists>item \<in> set tree. counted lang item
      then Some (length (filter (counted lang) tree)) else None)"
    by (rule analyze_languages_count)
  have "positive (analyze_languages tree)"
    unfolding analyze_languages_def by (rule positive_foldl) (simp add: positive_def)
  then show "distinct (map fst (analyze_languages tree))" by (simp add: positive_def)
  show "counted lang item \<longleftrightarrow>
        type item = ''blob'' \<and>
        (\<exists>h t. path item = h @ ''.'' @ t \<and> CHR ''.'' \<notin> set t \<and>
               map_of lang_map (''.'' @ t) = Some lang)"
    unfolding counted_iff split_last_Some by simp
qed

theorem analyze_languages_histogram_witness:
  "map_of (analyze_languages
      [\<lparr>path = ''a.py'', type = ''blob''\<rparr>, \<lparr>path = ''b.py'', type = ''blob''\<rparr>,
       \<lparr>path = ''c.unknownext'', type = ''blob''\<rparr>, \<lparr>path = ''README'', type = ''blob''\<rparr>])
      ''Python'' = Some 2
   \<and> analyze_languages
      [\<lparr>path = ''a.py'', type = ''blob''\<rparr>, \<lparr>path = ''b.py'', type = ''blob''\<rparr>,
       \<lparr>path = ''c.unknownext'', type = ''blob''\<rparr>, \<lparr>path = ''README'', type = ''blob''\<rparr>]
      = [(''Python'', 2)]"
  using analyze_languages_histogram[of
      "[\<lparr>path = ''a.py'', type = ''blob''\<rparr>, \<lparr>path = ''b.py'', type = ''blob''\<rparr>,
        \<lparr>path = ''c.unknownext'', type = ''blob''\<rparr>, \<lparr>path = ''README'', type = ''blob''\<rparr>]"
      "''Python''" "\<lparr>path = ''a.py'', type = ''blob''\<rparr>"]
  by (simp add: analyze_languages_def count_language_def str_rsplit1_def split_last_def
        lang_map_def dict_get_def counted_def)

section \<open>The tree built by \<open>populate_tree\<close>\<close>

subsection \<open>One step of the loop\<close>




lemma add_item_eq:
  "add_item (nodes, t) item =
     (if type item = ''blob'' then nodes else nodes(path item \<mapsto> length t),
      t[chosen_parent nodes item :=
          (t ! chosen_parent nodes item)
            \<lparr>children := children (t ! chosen_parent nodes item) @ [length t]\<rparr>]
        @ [new_node item])"
  by (simp add: add_item_def add_node_def chosen_parent_def parent_path_def new_node_def
        Let_def split: prod.splits)

lemma run_Nil: "run repo [] = (['''' \<mapsto> 0], cleared_tree repo)"
  by (simp add: run_def)

lemma run_snoc: "run repo (xs @ [x]) = add_item (run repo xs) x"
  by (simp add: run_def)

lemma run_snoc_eq:
  "run repo (xs @ [x]) =
     (if type x = ''blob'' then fst (run repo xs)
      else (fst (run repo xs))(path x \<mapsto> length (snd (run repo xs))),
      (snd (run repo xs))
        [chosen_parent (fst (run repo xs)) x :=
          (snd (run repo xs) ! chosen_parent (fst (run repo xs)) x)
            \<lparr>children := children (snd (run repo xs) ! chosen_parent (fst (run repo xs)) x)
                           @ [length (snd (run repo xs))]\<rparr>]
        @ [new_node x])"
  unfolding run_snoc using add_item_eq[of "fst (run repo xs)" "snd (run repo xs)" x] by simp

lemma build_tree_run: "build_tree repo items = run repo (sort_key path items)"
  by (simp add: build_tree_def run_def)

subsection \<open>What holds after every step\<close>

lemma length_run: "length (snd (run repo xs)) = Suc (length xs)"
  by (induction xs rule: rev_induct) (simp_all add: run_Nil cleared_tree_def run_snoc_eq)

lemma nodes_run:
  "fst (run repo xs) p = Some n \<Longrightarrow>
     (n = 0 \<and> p = []) \<or>
     (0 < n \<and> n \<le> length xs \<and> path (xs ! (n - 1)) = p \<and> type (xs ! (n - 1)) \<noteq> ''blob'')"
proof (induction xs arbitrary: p n rule: rev_induct)
  case Nil
  then show ?case by (simp add: run_Nil split: if_splits)
next
  case (snoc x xs)
  show ?case
  proof (cases "type x \<noteq> ''blob'' \<and> p = path x")
    case True
    with snoc.prems have "n = Suc (length xs)"
      by (simp add: run_snoc_eq length_run)
    with True show ?thesis by simp
  next
    case False
    with snoc.prems have "fst (run repo xs) p = Some n"
      by (auto simp: run_snoc_eq split: if_splits)
    from snoc.IH[OF this] show ?thesis
      by (auto simp: nth_append)
  qed
qed

lemma nodes_run_bound: "fst (run repo xs) p = Some n \<Longrightarrow> n \<le> length xs"
  using nodes_run[of repo xs p n] by auto

lemma chosen_parent_bound: "chosen_parent (fst (run repo xs)) x \<le> length xs"
  unfolding chosen_parent_def
  by (auto split: option.splits dest: nodes_run_bound)

lemma parent_at_bound: "k < length xs \<Longrightarrow> parent_at repo xs k \<le> k"
  unfolding parent_at_def using chosen_parent_bound[of repo "take k xs" "xs ! k"] by simp

lemma parent_at_snoc: "k < length xs \<Longrightarrow> parent_at repo (xs @ [x]) k = parent_at repo xs k"
  by (simp add: parent_at_def nth_append)

lemma parent_at_last:
  "parent_at repo (xs @ [x]) (length xs) = chosen_parent (fst (run repo xs)) x"
  by (simp add: parent_at_def)

lemma nodes_run_root: "fst (run repo xs) [] \<noteq> None"
  by (induction xs rule: rev_induct) (simp_all add: run_Nil run_snoc_eq)



subsection \<open>The nodes and their children\<close>

lemma nth_add_child:
  "i < length t \<Longrightarrow>
     (t[p := (t ! p)\<lparr>children := c\<rparr>] ! i)\<lparr>children := []\<rparr> = (t ! i)\<lparr>children := []\<rparr>"
  by (cases "i = p") simp_all

lemma node_run:
  "k < length xs \<Longrightarrow> (snd (run repo xs) ! Suc k)\<lparr>children := []\<rparr> = new_node (xs ! k)"
proof (induction xs rule: rev_induct)
  case Nil
  then show ?case by simp
next
  case (snoc x xs)
  show ?case
  proof (cases "k = length xs")
    case True
    then show ?thesis
      by (simp add: run_snoc_eq nth_append length_run new_node_def)
  next
    case False
    with snoc.prems have k: "k < length xs" by simp
    then have "Suc k < length (snd (run repo xs))" by (simp add: length_run)
    then show ?thesis using snoc.IH[OF k] k
      by (simp add: run_snoc_eq nth_append nth_add_child)
  qed
qed

lemma root_run:
  "(snd (run repo xs) ! 0)\<lparr>children := []\<rparr> =
     \<lparr>label = open_folder_icon @ '' '' @ repo, data = None, allow_expand = True, children = []\<rparr>"
proof (induction xs rule: rev_induct)
  case Nil
  show ?case by (simp add: run_Nil cleared_tree_def)
next
  case (snoc x xs)
  have "0 < length (snd (run repo xs))" by (simp add: length_run)
  then show ?case using snoc.IH
    by (simp add: run_snoc_eq nth_append nth_add_child)
qed

lemma children_run:
  "i \<le> length xs \<Longrightarrow>
     children (snd (run repo xs) ! i) =
       map Suc (filter (\<lambda>k. parent_at repo xs k = i) [0..<length xs])"
proof (induction xs arbitrary: i rule: rev_induct)
  case Nil
  then show ?case by (simp add: run_Nil cleared_tree_def)
next
  case (snoc x xs)
  let ?t = "snd (run repo xs)"
  let ?p = "chosen_parent (fst (run repo xs)) x"
  have len: "length ?t = Suc (length xs)" by (rule length_run)
  have old: "filter (\<lambda>k. parent_at repo (xs @ [x]) k = i) [0..<length xs]
               = filter (\<lambda>k. parent_at repo xs k = i) [0..<length xs]"
    by (rule filter_cong) (simp_all add: parent_at_snoc)
  show ?case
  proof (cases "i = Suc (length xs)")
    case True
    have "\<forall>k \<in> set [0..<Suc (length xs)]. parent_at repo (xs @ [x]) k \<noteq> i"
    proof
      fix k assume "k \<in> set [0..<Suc (length xs)]"
      then have kk: "k < Suc (length xs)" unfolding set_upt by simp
      then have "k < length (xs @ [x])" by simp
      from parent_at_bound[OF this, of repo] True kk
      show "parent_at repo (xs @ [x]) k \<noteq> i" by simp
    qed
    then have "filter (\<lambda>k. parent_at repo (xs @ [x]) k = i) [0..<Suc (length xs)] = []"
      unfolding filter_empty_conv by blast
    with True len show ?thesis
      by (simp add: run_snoc_eq nth_append new_node_def del: upt_Suc)
  next
    case False
    with snoc.prems have i: "i \<le> length xs" by simp
    then have il: "i < length ?t" by (simp add: len)
    have "children (snd (run repo (xs @ [x])) ! i) =
            children (?t ! i) @ (if ?p = i then [Suc (length xs)] else [])"
      using il len by (simp add: run_snoc_eq nth_append nth_list_update)
    also have "\<dots> = map Suc (filter (\<lambda>k. parent_at repo xs k = i) [0..<length xs])
                     @ (if ?p = i then [Suc (length xs)] else [])"
      by (simp add: snoc.IH[OF i])
    also have "\<dots> = map Suc (filter (\<lambda>k. parent_at repo (xs @ [x]) k = i)
                                  [0..<length (xs @ [x])])"
      by (simp add: old parent_at_last)
    finally show ?thesis .
  qed
qed

lemma is_child_run:
  "is_child (snd (run repo xs)) i j \<longleftrightarrow>
     (\<exists>k < length xs. j = Suc k \<and> parent_at repo xs k = i)"
proof
  assume "is_child (snd (run repo xs)) i j"
  then have i: "i \<le> length xs" and j: "j \<in> set (children (snd (run repo xs) ! i))"
    by (simp_all add: is_child_def length_run)
  from j show "\<exists>k < length xs. j = Suc k \<and> parent_at repo xs k = i"
    unfolding children_run[OF i] by auto
next
  assume "\<exists>k < length xs. j = Suc k \<and> parent_at repo xs k = i"
  then obtain k where k: "k < length xs" "j = Suc k" "parent_at repo xs k = i" by blast
  with parent_at_bound[OF k(1), of repo] have i: "i \<le> length xs" by simp
  from k show "is_child (snd (run repo xs)) i j"
    unfolding is_child_def children_run[OF i] using i by (simp add: length_run)
qed

lemma reachable_run: "j \<le> length xs \<Longrightarrow> reachable (snd (run repo xs)) j"
proof (induction j rule: less_induct)
  case (less j)
  show ?case
  proof (cases j)
    case 0
    then show ?thesis by (simp add: reachable.root)
  next
    case (Suc k)
    with less.prems have k: "k < length xs" by simp
    from parent_at_bound[OF k, of repo] Suc k
    have "parent_at repo xs k < j" "parent_at repo xs k \<le> length xs" by simp_all
    then have "reachable (snd (run repo xs)) (parent_at repo xs k)" by (rule less.IH)
    moreover have "is_child (snd (run repo xs)) (parent_at repo xs k) j"
      unfolding is_child_run using k Suc by blast
    ultimately show ?thesis by (rule reachable.child)
  qed
qed



subsection \<open>The parent a file gets, in path order\<close>



subsection \<open>Walking down by the segments of a path\<close>












subsection \<open>The tree of \<open>populate_tree\<close>\<close>

lemma populate_tree_run:
  assumes "file_tree_data self = Some items" and "items \<noteq> []"
  shows "dir_tree (populate_tree self) = snd (run (repo_full_name self) (sort_key path items))"
  using assms
  by (simp add: populate_tree_def falsy_list_def build_tree_run split: prod.splits)




text \<open>
  Claim C1, as stated, fails: for the listing \<open>[{path: "x/y.txt", type: blob}]\<close> the tree
  has two nodes only, the root and the leaf, and the leaf is a child of the root. No node
  for \<open>x\<close> exists.
\<close>

theorem populate_tree_implicit_parent_counterexample:
  "dir_tree (populate_tree
      ((SeerApp ''o/r'')\<lparr>file_tree_data := Some [\<lparr>path = ''x/y.txt'', type = ''blob''\<rparr>]\<rparr>))
     = [\<lparr>label = open_folder_icon @ '' o/r'', data = None, allow_expand = True,
         children = [1]\<rparr>,
        \<lparr>label = file_icon @ '' y.txt'', data = Some ''x/y.txt'', allow_expand = False,
         children = []\<rparr>]"
  by (simp add: populate_tree_def falsy_list_def build_tree_def SeerApp_def cleared_tree_def
        add_item_def add_node_def str_rpartition_def split_last_def)

text \<open>
  Claim C1, amended. For the listing \<open>[{path: "x/y.txt", type: blob}]\<close>, whatever the
  app was before, \<open>populate_tree\<close> attaches the leaf \<open>y.txt\<close>, carrying the full path
  \<open>x/y.txt\<close>, directly under the root: the entry is not dropped, and no node for \<open>x\<close> is
  made.
\<close>

theorem populate_tree_implicit_parent:
  "dir_tree (populate_tree
      (self\<lparr>file_tree_data := Some [\<lparr>path = ''x/y.txt'', type = ''blob''\<rparr>]\<rparr>))
     = [\<lparr>label = open_folder_icon @ '' '' @ repo_full_name self, data = None,
         allow_expand = True, children = [1]\<rparr>,
        \<lparr>label = file_icon @ '' y.txt'', data = Some ''x/y.txt'', allow_expand = False,
         children = []\<rparr>]"
  by (simp add: populate_tree_def falsy_list_def build_tree_def cleared_tree_def
        add_item_def add_node_def str_rpartition_def split_last_def)




text \<open>The condition on directory entries with an empty path is needed: such an entry
  takes the place of the root in \<open>nodes\<close>, and a top-level file then hangs under its
  node, not under the root.\<close>

lemma populate_tree_empty_directory_example:
  "dir_tree (populate_tree
      ((SeerApp ''o/r'')\<lparr>file_tree_data := Some [\<lparr>path = ''a'', type = ''blob''\<rparr>,
                                                  \<lparr>path = [], type = ''tree''\<rparr>]\<rparr>))
     = [\<lparr>label = open_folder_icon @ '' o/r'', data = None, allow_expand = True,
         children = [1]\<rparr>,
        \<lparr>label = folder_icon @ '' '', data = Some [], allow_expand = True, children = [2]\<rparr>,
        \<lparr>label = file_icon @ '' a'', data = Some ''a'', allow_expand = False,
         children = []\<rparr>]"
  by (simp add: populate_tree_def falsy_list_def build_tree_def SeerApp_def cleared_tree_def
        add_item_def add_node_def str_rpartition_def split_last_def)

text \<open>
  Claim C5, as stated, fails: an entry with an empty path is not skipped. It becomes a
  node with an empty name and the empty path as data, here the first child of the root.
\<close>

theorem populate_tree_empty_path_counterexample:
  "dir_tree (populate_tree
      ((SeerApp ''o/r'')\<lparr>file_tree_data := Some [\<lparr>path = ''a'', type = ''blob''\<rparr>,
                                                  \<lparr>path = [], type = ''blob''\<rparr>]\<rparr>))
     = [\<lparr>label = open_folder_icon @ '' o/r'', data = None, allow_expand = True,
         children = [1, 2]\<rparr>,
        \<lparr>label = file_icon @ '' '', data = Some [], allow_expand = False, children = []\<rparr>,
        \<lparr>label = file_icon @ '' a'', data = Some ''a'', allow_expand = False,
         children = []\<rparr>]"
  by (simp add: populate_tree_def falsy_list_def build_tree_def SeerApp_def cleared_tree_def
        add_item_def add_node_def str_rpartition_def split_last_def)

text \<open>
  Claim C5, amended. For every listing, the build completes and places every entry: the
  tree has one node for each entry besides the root. An entry with an empty path is
  treated like any other: it has a node, reachable from the root, with an empty name
  after the icon, the empty path as data, and expandable exactly when the entry is not a
  file.
\<close>

theorem populate_tree_empty_path:
  assumes "file_tree_data self = Some items"
    and "e \<in> set items"
    and "path e = []"
    and "t = dir_tree (populate_tree self)"
  shows "length t = Suc (length items)
       \<and> (\<exists>j. 0 < j \<and> j < length t
              \<and> data (t ! j) = Some []
              \<and> label (t ! j) = (if type e = ''blob'' then file_icon else folder_icon) @ '' ''
              \<and> allow_expand (t ! j) = (type e \<noteq> ''blob'')
              \<and> reachable t j)"
proof
  let ?repo = "repo_full_name self"
  let ?xs = "sort_key path items"
  from assms(2) have ne: "items \<noteq> []" by auto
  have t: "t = snd (run ?repo ?xs)"
    using populate_tree_run[OF assms(1) ne] assms(4) by simp
  show "length t = Suc (length items)" by (simp add: t length_run)
  from assms(2) have "e \<in> set ?xs" by simp
  then obtain k where k: "k < length ?xs" "?xs ! k = e"
    unfolding in_set_conv_nth by blast
  have node: "(t ! Suc k)\<lparr>children := []\<rparr> = new_node e"
    unfolding t using node_run[OF k(1), of ?repo] k(2) by simp
  have nn: "new_node e =
      \<lparr>label = (if type e = ''blob'' then file_icon else folder_icon) @ '' '',
       data = Some [], allow_expand = (type e \<noteq> ''blob''), children = []\<rparr>"
    using assms(3) by (simp add: new_node_def str_rpartition_def split_last_def)
  have 1: "data (t ! Suc k) = Some []"
  proof -
    have "data ((t ! Suc k)\<lparr>children := []\<rparr>) = Some []" unfolding node nn by simp
    then show ?thesis by simp
  qed
  have 2: "label (t ! Suc k) = (if type e = ''blob'' then file_icon else folder_icon) @ '' ''"
  proof -
    have "label ((t ! Suc k)\<lparr>children := []\<rparr>)
            = (if type e = ''blob'' then file_icon else folder_icon) @ '' ''"
      unfolding node nn by simp
    then show ?thesis by simp
  qed
  have 3: "allow_expand (t ! Suc k) = (type e \<noteq> ''blob'')"
  proof -
    have "allow_expand ((t ! Suc k)\<lparr>children := []\<rparr>) = (type e \<noteq> ''blob'')"
      unfolding node nn by simp
    then show ?thesis by simp
  qed
  have 4: "reachable t (Suc k)"
    unfolding t using k(1) by (intro reachable_run) simp
  have 5: "Suc k < length t" using k(1) by (simp add: t length_run)
  from 1 2 3 4 5
  show "\<exists>j. 0 < j \<and> j < length t
              \<and> data (t ! j) = Some []
              \<and> label (t ! j) = (if type e = ''blob'' then file_icon else folder_icon) @ '' ''
              \<and> allow_expand (t ! j) = (type e \<noteq> ''blob'')
              \<and> reachable t j"
    by blast
qed

theorem populate_tree_empty_path_witness:
  "length (dir_tree (populate_tree ((SeerApp ''o/r'')
      \<lparr>file_tree_data := Some [\<lparr>path = ''a'', type = ''blob''\<rparr>,
                              \<lparr>path = [], type = ''tree''\<rparr>]\<rparr>))) = 3
   \<and> (\<exists>j. 0 < j
        \<and> data (dir_tree (populate_tree ((SeerApp ''o/r'')
              \<lparr>file_tree_data := Some [\<lparr>path = ''a'', type = ''blob''\<rparr>,
                                      \<lparr>path = [], type = ''tree''\<rparr>]\<rparr>)) ! j) = Some []
        \<and> allow_expand (dir_tree (populate_tree ((SeerApp ''o/r'')
              \<lparr>file_tree_data := Some [\<lparr>path = ''a'', type = ''blob''\<rparr>,
                                      \<lparr>path = [], type = ''tree''\<rparr>]\<rparr>)) ! j))"
proof -
  let ?items = "[\<lparr>path = ''a'', type = ''blob''\<rparr>, \<lparr>path = [], type = ''tree''\<rparr>]"
  let ?self = "(SeerApp ''o/r'')\<lparr>file_tree_data := Some ?items\<rparr>"
  let ?e = "\<lparr>path = [], type = ''tree''\<rparr>"
  have h1: "file_tree_data ?self = Some ?items" by simp
  have h2: "?e \<in> set ?items" by simp
  have h3: "path ?e = []" by simp
  from populate_tree_empty_path[OF h1 h2 h3 refl] show ?thesis by auto
qed

end
